theory Spec2Isabelle
  imports Main "HOL-Library.Sublist"
begin

section \<open>Python strings\<close>

text \<open>
  A Python \<open>str\<close> is a sequence of Unicode code points, and \<open>len\<close>, \<open>in\<close>, \<open>count\<close>,
  \<open>replace\<close> and slicing all work on code points. A \<open>str\<close> is therefore a list of
  natural numbers, one per code point; \<open>str ''abc''\<close> is the \<open>str\<close> of an ASCII
  literal. The arrow of the finding messages is the code point U+2192, \<open>8594\<close>.
\<close>

type_synonym pystr = "nat list"

definition str :: "string \<Rightarrow> pystr" where
  "str s = map of_char s"

text \<open>\<^verbatim>\<open>sub in s\<close>: \<open>sub\<close> occurs in \<open>s\<close> at some position.\<close>

fun py_in :: "'a list \<Rightarrow> 'a list \<Rightarrow> bool" where
  "py_in sub [] = (sub = [])"
| "py_in sub (c # cs) = (prefix sub (c # cs) \<or> py_in sub cs)"

text \<open>
  \<^verbatim>\<open>s.count(sub)\<close>: the number of non-overlapping occurrences of \<open>sub\<close>, found from left
  to right; after a match the search goes on behind it. An empty \<open>sub\<close> is found between
  all characters.
\<close>

function py_count :: "'a list \<Rightarrow> 'a list \<Rightarrow> nat" where
  "py_count s sub =
     (if sub = [] then length s + 1
      else if prefix sub s then 1 + py_count (drop (length sub) s) sub
      else (case s of [] \<Rightarrow> 0 | c # cs \<Rightarrow> py_count cs sub))"
  by pat_completeness auto
termination
  by (relation "measure (\<lambda>(s, sub). length s)") (auto simp: prefix_def)

declare py_count.simps [simp del]

text \<open>
  The number of positions of \<open>s\<close> at which \<open>sub\<close> occurs, overlapping or not: what
  "the number of occurrences of a substring" says, to be compared with \<open>py_count\<close>.
\<close>

definition occurrences :: "'a list \<Rightarrow> 'a list \<Rightarrow> nat" where
  "occurrences s sub = length (filter (\<lambda>i. prefix sub (drop i s)) [0..<Suc (length s)])"

text \<open>\<^verbatim>\<open>sep.join(xs)\<close>\<close>

fun py_join :: "'a list \<Rightarrow> 'a list list \<Rightarrow> 'a list" where
  "py_join sep [] = []"
| "py_join sep [x] = x"
| "py_join sep (x # y # ys) = x @ sep @ py_join sep (y # ys)"

text \<open>
  \<^verbatim>\<open>s.replace(old, new)\<close>: every non-overlapping occurrence of \<open>old\<close>, from left to
  right; an empty \<open>old\<close> puts \<open>new\<close> before every character and at the end.
\<close>

function py_replace :: "'a list \<Rightarrow> 'a list \<Rightarrow> 'a list \<Rightarrow> 'a list" where
  "py_replace s old new =
     (if old = [] then new @ concat (map (\<lambda>c. c # new) s)
      else if prefix old s then new @ py_replace (drop (length old) s) old new
      else (case s of [] \<Rightarrow> [] | c # cs \<Rightarrow> c # py_replace cs old new))"
  by pat_completeness auto
termination
  by (relation "measure (\<lambda>(s, old, new). length s)") (auto simp: prefix_def)

declare py_replace.simps [simp del]

text \<open>
  \<^verbatim>\<open>s.strip()\<close> removes the white space at both ends; \<open>py_isspace\<close> lists the code
  points that \<open>str.isspace\<close> accepts.
\<close>

definition py_isspace :: "nat \<Rightarrow> bool" where
  "py_isspace c = ((9 \<le> c \<and> c \<le> 13) \<or> (28 \<le> c \<and> c \<le> 32) \<or> c = 133 \<or> c = 160
     \<or> c = 5760 \<or> (8192 \<le> c \<and> c \<le> 8202) \<or> c = 8232 \<or> c = 8233 \<or> c = 8239
     \<or> c = 8287 \<or> c = 12288)"

definition py_strip :: "pystr \<Rightarrow> pystr" where
  "py_strip s = rev (dropWhile py_isspace (rev (dropWhile py_isspace s)))"

text \<open>\<^verbatim>\<open>str(n)\<close> of an integer: its decimal digits, with a minus sign when negative.\<close>

function digits :: "nat \<Rightarrow> pystr" where
  "digits n = (if n < 10 then [48 + n] else digits (n div 10) @ [48 + n mod 10])"
  by pat_completeness auto
termination
  by (relation "measure (\<lambda>n. n)") auto

declare digits.simps [simp del]

definition str_of_int :: "int \<Rightarrow> pystr" where
  "str_of_int i = (if i < 0 then 45 # digits (nat (- i)) else digits (nat i))"

text \<open>
  \<^verbatim>\<open>s.lower()\<close> follows the Unicode character database of the Python runtime, which is
  no part of this program: the scanner takes it as the parameter \<open>lower\<close>. On a \<open>str\<close>
  of ASCII characters it is \<open>ascii_lower\<close>, which the concrete runs below use.
\<close>

definition ascii_lower :: "pystr \<Rightarrow> pystr" where
  "ascii_lower s = map (\<lambda>c. if 65 \<le> c \<and> c \<le> 90 then c + 32 else c) s"

section \<open>Exceptions and dictionaries\<close>

datatype exn =
    KeyError pystr
  | AttributeError pystr
  | External pystr

text \<open>\<^verbatim>\<open>d[key]\<close> on a dictionary kept as the list of its items.\<close>

definition getitem :: "(pystr \<times> 'v) list \<Rightarrow> pystr \<Rightarrow> exn + 'v" where
  "getitem d key = (case map_of d key of None \<Rightarrow> Inl (KeyError key) | Some v \<Rightarrow> Inr v)"

section \<open>Configuration\<close>

definition MAX_FILES :: nat where
  "MAX_FILES = 10"

definition MAX_FILE_CHARS :: nat where
  "MAX_FILE_CHARS = 8000"

definition ALLOWED_EXT :: "pystr set" where
  "ALLOWED_EXT = {str ''.py'', str ''.js'', str ''.jsx'', str ''.ts'', str ''.tsx'',
     str ''.html'', str ''.css'', str ''.java'', str ''.cpp''}"

definition IGNORED_DIRS :: "pystr set" where
  "IGNORED_DIRS = {str ''.git'', str ''node_modules'', str ''venv'', str ''__pycache__'',
     str ''dist'', str ''build''}"

section \<open>Scoring logic\<close>

text \<open>
  The counts are a dictionary from severity level to integer. The inner loop of
  \<open>extract_severity_counts\<close> adds to every level the count of its marker in one text;
  the outer loop runs over the texts.
\<close>

type_synonym counts = "(pystr \<times> int) list"

definition count_levels :: "pystr \<Rightarrow> counts \<Rightarrow> counts" where
  "count_levels text counts =
     map (\<lambda>(level, n). (level, n + int (py_count text (str ''['' @ level @ str '']'')))) counts"

definition extract_severity_counts :: "pystr list \<Rightarrow> counts" where
  "extract_severity_counts analyses =
     fold count_levels analyses [(str ''HIGH'', 0), (str ''MEDIUM'', 0), (str ''LOW'', 0)]"

definition calculate_health_score :: "counts \<Rightarrow> exn + int" where
  "calculate_health_score counts =
     (let score = 100 in
      (case getitem counts (str ''HIGH'') of
         Inl e \<Rightarrow> Inl e
       | Inr high \<Rightarrow>
           (let score = score - high * 15 in
            (case getitem counts (str ''MEDIUM'') of
               Inl e \<Rightarrow> Inl e
             | Inr medium \<Rightarrow>
                 (let score = score - medium * 7 in
                  (case getitem counts (str ''LOW'') of
                     Inl e \<Rightarrow> Inl e
                   | Inr low \<Rightarrow>
                       (let score = score - low * 3 in Inr (max score 0))))))))"

section \<open>File loader\<close>

text \<open>
  The cloned repository is a tree: a directory holds its files, each with the text that
  \<open>open\<close> and \<open>read\<close> give (\<open>None\<close> when either raises; decoding ignores errors and
  never raises), and its subdirectories, both in the order in which \<open>os.walk\<close> lists
  them. Paths are relative to the root given to \<open>load_files\<close>, as lists of names. A
  directory that cannot be listed, or a link to a directory, yields no file and is
  an empty directory here. Path separators are those of POSIX.
\<close>

datatype tree =
  Dir (dir_files: "(pystr \<times> pystr option) list") (dir_subdirs: "(pystr \<times> tree) list")

record source_file =
  path :: pystr
  content :: pystr

text \<open>
  \<^verbatim>\<open>os.path.splitext(p)[1]\<close>: the part from the last dot of the last path component,
  empty when that component has no dot or only leading dots before it.
\<close>

definition splitext_ext :: "pystr \<Rightarrow> pystr" where
  "splitext_ext p =
     (let base = rev (takeWhile (\<lambda>c. c \<noteq> 47) (rev p));
          after = rev (takeWhile (\<lambda>c. c \<noteq> 46) (rev base));
          before = take (length base - length after - 1) base
      in if 46 \<in> set base \<and> dropWhile (\<lambda>c. c = 46) before \<noteq> [] then 46 # after else [])"

text \<open>
  \<^verbatim>\<open>os.path.relpath(os.path.join(root, file), local_path)\<close>, where \<open>root\<close> is the
  directory below \<open>local_path\<close> that the walk is in.
\<close>

definition relpath :: "pystr list \<Rightarrow> pystr \<Rightarrow> pystr" where
  "relpath root file = py_join (str ''/'') (root @ [file])"

text \<open>
  The directories that \<^verbatim>\<open>os.walk(local_path)\<close> yields, top down, each with its files,
  when the loop body prunes \<open>dirs\<close> in place to the names outside \<open>IGNORED_DIRS\<close>:
  \<open>os.walk\<close> descends into what the body has left in \<open>dirs\<close>.
\<close>

fun os_walk :: "pystr list \<Rightarrow> tree \<Rightarrow> (pystr list \<times> (pystr \<times> pystr option) list) list" where
  "os_walk root (Dir files dirs) =
     (root, files) #
     concat (map (\<lambda>(d, t). os_walk (root @ [d]) t) (filter (\<lambda>(d, t). d \<notin> IGNORED_DIRS) dirs))"

text \<open>The inner loop over the files of one directory.\<close>

definition read_files :: "pystr list \<Rightarrow> (pystr \<times> pystr option) list \<Rightarrow> source_file list" where
  "read_files root files =
     concat (map (\<lambda>(file, opened).
       if splitext_ext file \<in> ALLOWED_EXT then
         (case opened of
            None \<Rightarrow> []
          | Some contents \<Rightarrow>
              if 300 < length contents \<and> length contents < MAX_FILE_CHARS
              then [\<lparr>path = relpath root file, content = take MAX_FILE_CHARS contents\<rparr>]
              else [])
       else []) files)"

text \<open>The outer loop, with its \<open>break\<close> once enough files are collected.\<close>

fun collect :: "source_file list \<Rightarrow> (pystr list \<times> (pystr \<times> pystr option) list) list
    \<Rightarrow> source_file list" where
  "collect files_data [] = files_data"
| "collect files_data ((root, files) # rest) =
     (let files_data = files_data @ read_files root files
      in if length files_data \<ge> MAX_FILES then files_data else collect files_data rest)"

definition load_files :: "tree \<Rightarrow> source_file list" where
  "load_files local_path = take MAX_FILES (collect [] (os_walk [] local_path))"

text \<open>
  Every file of the tree, ignored directories included, with the names of the
  directories that lead to it from the root, its own name and what reading it gives:
  what the sampler chooses from.
\<close>

fun tree_files :: "pystr list \<Rightarrow> tree \<Rightarrow> (pystr list \<times> pystr \<times> pystr option) list" where
  "tree_files root (Dir files dirs) =
     map (\<lambda>(file, opened). (root, file, opened)) files @
     concat (map (\<lambda>(d, t). tree_files (root @ [d]) t) dirs)"

text \<open>
  A small repository for concrete runs: two files that qualify, one with a foreign
  extension, one too short, one too long, one that cannot be read, and two ignored
  directories, one of them nested.
\<close>

definition example_tree :: tree where
  "example_tree = Dir
     [(str ''a.py'', Some (replicate 301 120)), (str ''notes.txt'', Some (replicate 400 120)),
      (str ''short.py'', Some (replicate 300 120)), (str ''long.js'', Some (replicate 8000 120)),
      (str ''broken.py'', None)]
     [(str ''node_modules'', Dir [(str ''dep.js'', Some (replicate 500 120))] []),
      (str ''src'', Dir [(str ''main.ts'', Some (replicate 7999 120))]
         [(str ''build'', Dir [(str ''out.js'', Some (replicate 500 120))] [])])]"

section \<open>File analysis\<close>

definition msg_api_key :: pystr where
  "msg_api_key = str ''[HIGH] Possible hardcoded API key detected '' @ [8594]
     @ str '' Move secrets to environment variables''"

definition msg_except :: pystr where
  "msg_except = str ''[MEDIUM] Bare except clause used '' @ [8594]
     @ str '' Catch specific exceptions''"

definition msg_print :: pystr where
  "msg_print = str ''[LOW] Debug print statements found '' @ [8594]
     @ str '' Replace with logging''"

definition msg_none :: pystr where
  "msg_none = str ''[LOW] No major issues detected''"

text \<open>The list \<open>findings\<close> that \<open>analyze_file\<close> builds from the content.\<close>

definition findings :: "(pystr \<Rightarrow> pystr) \<Rightarrow> pystr \<Rightarrow> pystr list" where
  "findings lower contents =
     (let fs = [];
          fs = (if py_in (str ''api_key'') (lower contents) then fs @ [msg_api_key] else fs);
          fs = (if py_in (str ''except:'') contents then fs @ [msg_except] else fs);
          fs = (if py_in (str ''print('') contents then fs @ [msg_print] else fs);
          fs = (if fs = [] then fs @ [msg_none] else fs)
      in fs)"

definition analyze_file :: "(pystr \<Rightarrow> pystr) \<Rightarrow> source_file \<Rightarrow> pystr" where
  "analyze_file lower file =
     path file @ str '':\<newline>'' @ py_join (str ''\<newline>'') (findings lower (content file))"

section \<open>Final summary\<close>

text \<open>
  A JSON value as \<open>json.loads\<close> returns it and \<open>jsonify\<close> sends it. The type of the
  floating-point numbers is left open: no function here looks into one.
\<close>

datatype 'f json =
    JNull
  | JBool bool
  | JInt int
  | JFloat 'f
  | JStr pystr
  | JArr "'f json list"
  | JObj "(pystr \<times> 'f json) list"

text \<open>
  What lies outside the program: the configured access token, the lowercasing of the
  runtime, the clone (the tree it leaves in the temporary directory, or the exception it
  raises), the completion service (the content of the first choice of its reply, which
  may be \<open>None\<close>, or the exception raised on the way), the JSON parser, and the text of
  a traceback. Creating and removing the temporary directory is taken to succeed.
\<close>

record 'f world =
  github_token :: "pystr option"
  py_lower :: "pystr \<Rightarrow> pystr"
  clone_from :: "pystr \<Rightarrow> exn + tree"
  create_completion :: "pystr \<Rightarrow> exn + pystr option"
  json_loads :: "pystr \<Rightarrow> exn + 'f json"
  format_exc :: "exn \<Rightarrow> pystr"

text \<open>The calls that leave the program, in the order in which a request makes them.\<close>

datatype event =
    Clone_from pystr
  | Sleep
  | Create_completion pystr
  | Print pystr

text \<open>\<^verbatim>\<open>str(e)\<close>; a \<open>KeyError\<close> shows its key in quotes.\<close>

fun exn_str :: "exn \<Rightarrow> pystr" where
  "exn_str (KeyError k) = [39] @ k @ [39]"
| "exn_str (AttributeError m) = m"
| "exn_str (External m) = m"

text \<open>The prompt, with the score, the three counts and the findings filled in.\<close>

definition prompt_text :: "pystr list \<Rightarrow> int \<Rightarrow> int \<Rightarrow> int \<Rightarrow> int \<Rightarrow> pystr" where
  "prompt_text file_results score high medium low =
     str ''\<newline>You are generating a final audit report.\<newline>\<newline>FACTS (DO NOT CHANGE):\<newline>- Health score: ''
     @ str_of_int score
     @ str ''\<newline>- Issue counts:\<newline>  - HIGH: '' @ str_of_int high
     @ str ''\<newline>  - MEDIUM: '' @ str_of_int medium
     @ str ''\<newline>  - LOW: '' @ str_of_int low
     @ str ''\<newline>\<newline>VERIFIED FINDINGS:\<newline>'' @ py_join [10] file_results
     @ str ''\<newline>\<newline>TASK:\<newline>1. Write a 3-sentence executive summary that reflects the score and severity\<newline>''
     @ str ''2. Create a prioritized improvement roadmap:\<newline>   - Fix HIGH issues first\<newline>   - Then MEDIUM\<newline>   - Then LOW\<newline>\<newline>''
     @ str ''RULES:\<newline>- Do NOT introduce new issues\<newline>- Every roadmap item must map to findings above\<newline>\<newline>''
     @ str ''OUTPUT JSON ONLY:\<newline>{\<newline>  '' @ [34] @ str ''score'' @ [34] @ str '': '' @ str_of_int score
     @ str '',\<newline>  '' @ [34] @ str ''summary'' @ [34] @ str '': '' @ [34, 34]
     @ str '',\<newline>  '' @ [34] @ str ''roadmap'' @ [34] @ str '': ['' @ [34] @ str ''...'' @ [34] @ str '']''
     @ str '',\<newline>  '' @ [34] @ str ''details'' @ [34] @ str '': ['' @ [34] @ str ''...'' @ [34] @ str '']''
     @ str ''\<newline>}\<newline>''"

text \<open>The message of the error raised by \<open>.replace\<close> on a reply that has no content.\<close>

definition none_has_no_replace :: pystr where
  "none_has_no_replace =
     [39] @ str ''NoneType'' @ [39] @ str '' object has no attribute '' @ [39] @ str ''replace''
     @ [39]"

definition summarize_repo :: "'f world \<Rightarrow> pystr list \<Rightarrow> int \<Rightarrow> counts
    \<Rightarrow> (exn + 'f json) \<times> event list" where
  "summarize_repo w file_results score counts =
     (case getitem counts (str ''HIGH'') of
        Inl e \<Rightarrow> (Inl e, [])
      | Inr high \<Rightarrow>
          (case getitem counts (str ''MEDIUM'') of
             Inl e \<Rightarrow> (Inl e, [])
           | Inr medium \<Rightarrow>
               (case getitem counts (str ''LOW'') of
                  Inl e \<Rightarrow> (Inl e, [])
                | Inr low \<Rightarrow>
                    (let prompt = prompt_text file_results score high medium low in
                     (case create_completion w prompt of
                        Inl e \<Rightarrow> (Inl e, [Create_completion prompt])
                      | Inr None \<Rightarrow>
                          (Inl (AttributeError none_has_no_replace),
                           [Create_completion prompt])
                      | Inr (Some reply) \<Rightarrow>
                          (let text = py_strip (py_replace (py_replace reply (str ''```json'') [])
                                        (str ''```'') [])
                           in (json_loads w text, [Create_completion prompt])))))))"

section \<open>Routes\<close>

datatype 'f response = Response (status: nat) (body: "'f json")

definition error_500 :: "'f world \<Rightarrow> exn \<Rightarrow> 'f response" where
  "error_500 w e =
     Response 500 (JObj [(str ''error'', JStr (exn_str e)), (str ''trace'', JStr (format_exc w e))])"

text \<open>
  The URL handed to the clone: with the access token spliced in when the URL names
  \<open>github.com\<close> and a token is configured (\<open>None\<close> and the empty \<open>str\<close> count as
  no token).
\<close>

definition auth_url_of :: "pystr option \<Rightarrow> pystr \<Rightarrow> pystr" where
  "auth_url_of GITHUB_TOKEN repo_url =
     (case GITHUB_TOKEN of
        None \<Rightarrow> repo_url
      | Some token \<Rightarrow>
          (if py_in (str ''github.com'') repo_url \<and> token \<noteq> []
           then py_replace repo_url (str ''https://'') (str ''https://'' @ token @ str ''@'')
           else repo_url))"

text \<open>
  The handler of \<open>POST /analyze\<close>, from the value of \<^verbatim>\<open>data.get("url")\<close> on: \<open>None\<close>
  when the request has no such field, a \<open>str\<close> otherwise. It returns the response and
  the calls it made.
\<close>

definition analyze :: "'f world \<Rightarrow> pystr option \<Rightarrow> 'f response \<times> event list" where
  "analyze w repo_url =
     (case repo_url of
        None \<Rightarrow> (Response 400 (JObj [(str ''error'', JStr (str ''No URL provided''))]), [])
      | Some url \<Rightarrow>
          (if url = []
           then (Response 400 (JObj [(str ''error'', JStr (str ''No URL provided''))]), [])
           else
             (let auth_url = auth_url_of (github_token w) url in
              (case clone_from w auth_url of
                 Inl e \<Rightarrow> (error_500 w e, [Clone_from auth_url, Print (format_exc w e)])
               | Inr local_path \<Rightarrow>
                   (let files = load_files local_path in
                    (if files = []
                     then (Response 400
                             (JObj [(str ''error'', JStr (str ''No readable source files found''))]),
                           [Clone_from auth_url])
                     else
                       (let file_results = map (analyze_file (py_lower w)) files;
                            sleeps = map (\<lambda>f. Sleep) files;
                            severity_counts = extract_severity_counts file_results
                        in
                        (case calculate_health_score severity_counts of
                           Inl e \<Rightarrow>
                             (error_500 w e,
                              Clone_from auth_url # sleeps @ [Print (format_exc w e)])
                         | Inr score \<Rightarrow>
                             (case summarize_repo w file_results score severity_counts of
                                (Inl e, calls) \<Rightarrow>
                                  (error_500 w e,
                                   Clone_from auth_url # sleeps @ calls @ [Print (format_exc w e)])
                              | (Inr final_report, calls) \<Rightarrow>
                                  (Response 200 final_report,
                                   Clone_from auth_url # sleeps @ calls))))))))))"


text \<open>
  A world for concrete runs: the clone leaves \<open>example_tree\<close>, and the completion
  service answers every prompt with a fenced JSON object whose score is 0. Its parser
  is \<open>json.loads\<close> on that one text and rejects every other text.
\<close>

definition example_reply_json :: pystr where
  "example_reply_json =
     str ''{'' @ [34] @ str ''score'' @ [34] @ str '': 0, '' @ [34] @ str ''summary'' @ [34]
     @ str '': '' @ [34, 34] @ str '', '' @ [34] @ str ''roadmap'' @ [34] @ str '': [], ''
     @ [34] @ str ''details'' @ [34] @ str '': []}''"

definition example_reply :: pystr where
  "example_reply = str ''```json\<newline>'' @ example_reply_json @ str ''\<newline>```''"

definition example_report :: "unit json" where
  "example_report =
     JObj [(str ''score'', JInt 0), (str ''summary'', JStr []), (str ''roadmap'', JArr []),
           (str ''details'', JArr [])]"

definition example_world :: "unit world" where
  "example_world =
     \<lparr>github_token = None,
      py_lower = ascii_lower,
      clone_from = (\<lambda>url. Inr example_tree),
      create_completion = (\<lambda>prompt. Inr (Some example_reply)),
      json_loads = (\<lambda>text. if text = example_reply_json then Inr example_report
                            else Inl (External (str ''JSONDecodeError''))),
      format_exc = (\<lambda>e. str ''Traceback'')\<rparr>"

section \<open>Properties\<close>

subsection \<open>Substring test and counting\<close>

lemma py_in_iff_sublist: "py_in sub s \<longleftrightarrow> sublist sub s"
  by (induction s) (auto simp: sublist_Cons_right)

lemma py_count_Nil: "sub \<noteq> [] \<Longrightarrow> py_count [] sub = 0"
  by (subst py_count.simps) simp

lemma py_count_prefix:
  "sub \<noteq> [] \<Longrightarrow> py_count (sub @ t) sub = Suc (py_count t sub)"
  by (subst py_count.simps) simp

lemma py_count_Cons:
  "sub \<noteq> [] \<Longrightarrow> \<not> prefix sub (x # xs) \<Longrightarrow> py_count (x # xs) sub = py_count xs sub"
  by (subst py_count.simps) simp

lemma occurrences_Nil: "occurrences [] sub = (if sub = [] then 1 else 0)"
  by (simp add: occurrences_def)

lemma occurrences_Cons:
  "occurrences (c # cs) sub = (if prefix sub (c # cs) then 1 else 0) + occurrences cs sub"
proof -
  have "[0..<Suc (Suc (length cs))] = 0 # map Suc [0..<Suc (length cs)]"
    by (simp add: upt_conv_Cons map_Suc_upt del: upt_Suc)
  then show ?thesis
    by (simp add: occurrences_def filter_map o_def del: upt_Suc)
qed

lemma occurrences_card:
  "occurrences s sub = card {i. i \<le> length s \<and> prefix sub (drop i s)}"
proof -
  have "{i. prefix sub (drop i s)} \<inter> set [0..<Suc (length s)]
      = {i. i \<le> length s \<and> prefix sub (drop i s)}"
    by auto
  then show ?thesis
    by (simp add: occurrences_def distinct_length_filter del: upt_Suc)
qed

lemma occurrences_skip:
  "c \<notin> set ys \<Longrightarrow> occurrences (ys @ t) (c # r) = occurrences t (c # r)"
  by (induction ys) (auto simp: occurrences_Cons)

lemma py_count_eq_occurrences:
  "c \<notin> set r \<Longrightarrow> py_count s (c # r) = occurrences s (c # r)"
proof (induction s "c # r" rule: py_count.induct)
  case (1 s)
  show ?case
  proof (cases "prefix (c # r) s")
    case True
    then obtain t where s: "s = (c # r) @ t" by (auto simp: prefix_def)
    have "py_count t (c # r) = occurrences t (c # r)"
      using 1(1)[OF _ True] 1(3) s by simp
    moreover have "occurrences s (c # r) = Suc (occurrences t (c # r))"
      using occurrences_skip[OF 1(3), of t r] by (simp add: s occurrences_Cons)
    ultimately show ?thesis
      using py_count_prefix[of "c # r" t] by (simp add: s)
  next
    case False
    show ?thesis
    proof (cases s)
      case Nil
      then show ?thesis by (simp add: occurrences_Nil py_count_Nil)
    next
      case (Cons x xs)
      then show ?thesis
        using False 1(2)[OF _ False Cons] 1(3)
        by (simp add: occurrences_Cons py_count_Cons)
    qed
  qed
qed

lemma prefix_sep:
  "c \<notin> set sub \<Longrightarrow> prefix sub (a @ c # b) \<longleftrightarrow> prefix sub a"
  by (induction a arbitrary: sub) (auto simp: prefix_Cons)

lemma py_count_sep:
  "sub \<noteq> [] \<Longrightarrow> c \<notin> set sub \<Longrightarrow> py_count (a @ c # b) sub = py_count a sub + py_count b sub"
proof (induction a sub rule: py_count.induct)
  case (1 s sub)
  show ?case
  proof (cases "prefix sub s")
    case True
    then obtain t where s: "s = sub @ t" by (auto simp: prefix_def)
    have "py_count (t @ c # b) sub = py_count t sub + py_count b sub"
      using 1(1)[OF 1(3) True 1(3) 1(4)] s by simp
    then show ?thesis
      using py_count_prefix[OF 1(3), of "t @ c # b"] py_count_prefix[OF 1(3), of t]
      by (simp add: s)
  next
    case False
    then have np: "\<not> prefix sub (s @ c # b)" using prefix_sep[OF 1(4)] by simp
    show ?thesis
    proof (cases s)
      case Nil
      then show ?thesis using np 1(3) by (simp add: py_count_Nil py_count_Cons)
    next
      case (Cons x xs)
      have "py_count (xs @ c # b) sub = py_count xs sub + py_count b sub"
        using 1(2)[OF 1(3) False Cons 1(3) 1(4)] .
      then show ?thesis
        using np False 1(3) Cons by (simp add: py_count_Cons)
    qed
  qed
qed

lemma py_count_zero_iff:
  "sub \<noteq> [] \<Longrightarrow> py_count s sub = 0 \<longleftrightarrow> \<not> py_in sub s"
proof (induction s sub rule: py_count.induct)
  case (1 s sub)
  show ?case
  proof (cases "prefix sub s")
    case True
    then obtain t where s: "s = sub @ t" by (auto simp: prefix_def)
    have "py_in sub s" using True 1(3) by (cases s) auto
    then show ?thesis using py_count_prefix[OF 1(3), of t] by (simp add: s)
  next
    case False
    show ?thesis
    proof (cases s)
      case Nil
      then show ?thesis using 1(3) by (simp add: py_count_Nil)
    next
      case (Cons x xs)
      then show ?thesis
        using 1(2)[OF 1(3) False Cons 1(3)] False 1(3) by (simp add: py_count_Cons)
    qed
  qed
qed

subsection \<open>Severity counts\<close>

lemma tag_HIGH: "str ''['' @ str ''HIGH'' @ str '']'' = str ''[HIGH]''"
  by (simp add: str_def)

lemma tag_MEDIUM: "str ''['' @ str ''MEDIUM'' @ str '']'' = str ''[MEDIUM]''"
  by (simp add: str_def)

lemma tag_LOW: "str ''['' @ str ''LOW'' @ str '']'' = str ''[LOW]''"
  by (simp add: str_def)

lemma count_levels_three:
  "count_levels t [(str ''HIGH'', a), (str ''MEDIUM'', b), (str ''LOW'', c)] =
     [(str ''HIGH'', a + int (py_count t (str ''[HIGH]''))),
      (str ''MEDIUM'', b + int (py_count t (str ''[MEDIUM]''))),
      (str ''LOW'', c + int (py_count t (str ''[LOW]'')))]"
  by (simp add: count_levels_def tag_HIGH tag_MEDIUM tag_LOW)

lemma fold_count_levels:
  "fold count_levels ts [(str ''HIGH'', a), (str ''MEDIUM'', b), (str ''LOW'', c)] =
     [(str ''HIGH'', a + int (\<Sum>t\<leftarrow>ts. py_count t (str ''[HIGH]''))),
      (str ''MEDIUM'', b + int (\<Sum>t\<leftarrow>ts. py_count t (str ''[MEDIUM]''))),
      (str ''LOW'', c + int (\<Sum>t\<leftarrow>ts. py_count t (str ''[LOW]'')))]"
proof (induction ts arbitrary: a b c)
  case Nil
  show ?case by simp
next
  case (Cons t ts)
  show ?case
    by (simp only: fold_simps count_levels_three Cons.IH) simp
qed

lemma extract_severity_counts_eq:
  "extract_severity_counts ts =
     [(str ''HIGH'', int (\<Sum>t\<leftarrow>ts. py_count t (str ''[HIGH]''))),
      (str ''MEDIUM'', int (\<Sum>t\<leftarrow>ts. py_count t (str ''[MEDIUM]''))),
      (str ''LOW'', int (\<Sum>t\<leftarrow>ts. py_count t (str ''[LOW]'')))]"
  by (simp add: extract_severity_counts_def fold_count_levels)

lemma count_tag_HIGH: "py_count t (str ''[HIGH]'') = occurrences t (str ''[HIGH]'')"
proof -
  have "str ''[HIGH]'' = 91 # str ''HIGH]''" and "91 \<notin> set (str ''HIGH]'')"
    by (simp_all add: str_def)
  then show ?thesis using py_count_eq_occurrences[of 91 "str ''HIGH]''" t] by simp
qed

lemma count_tag_MEDIUM: "py_count t (str ''[MEDIUM]'') = occurrences t (str ''[MEDIUM]'')"
proof -
  have "str ''[MEDIUM]'' = 91 # str ''MEDIUM]''" and "91 \<notin> set (str ''MEDIUM]'')"
    by (simp_all add: str_def)
  then show ?thesis using py_count_eq_occurrences[of 91 "str ''MEDIUM]''" t] by simp
qed

lemma count_tag_LOW: "py_count t (str ''[LOW]'') = occurrences t (str ''[LOW]'')"
proof -
  have "str ''[LOW]'' = 91 # str ''LOW]''" and "91 \<notin> set (str ''LOW]'')"
    by (simp_all add: str_def)
  then show ?thesis using py_count_eq_occurrences[of 91 "str ''LOW]''" t] by simp
qed

text \<open>
  Claim C7: for every list of per-file finding texts the aggregator returns the three
  entries \<open>HIGH\<close>, \<open>MEDIUM\<close>, \<open>LOW\<close>, and nothing else, each with the total number
  of occurrences of its marker \<open>[HIGH]\<close>, \<open>[MEDIUM]\<close>, \<open>[LOW]\<close> over all the texts.
\<close>

theorem extract_severity_counts_occurrences:
  "extract_severity_counts analyses =
     [(str ''HIGH'', int (\<Sum>text\<leftarrow>analyses. occurrences text (str ''[HIGH]''))),
      (str ''MEDIUM'', int (\<Sum>text\<leftarrow>analyses. occurrences text (str ''[MEDIUM]''))),
      (str ''LOW'', int (\<Sum>text\<leftarrow>analyses. occurrences text (str ''[LOW]'')))]"
  by (simp add: extract_severity_counts_eq count_tag_HIGH count_tag_MEDIUM count_tag_LOW)

lemma getitem_Some: "map_of d key = Some v \<Longrightarrow> getitem d key = Inr v"
  by (simp add: getitem_def)

text \<open>
  Claim C2: for counts with non-negative entries \<open>H\<close>, \<open>M\<close>, \<open>L\<close> the scorer returns
  \<open>max 0 (100 - 15 H - 7 M - 3 L)\<close>, and that score lies between 0 and 100.
\<close>

theorem calculate_health_score_formula:
  assumes "map_of counts (str ''HIGH'') = Some H"
    and "map_of counts (str ''MEDIUM'') = Some M"
    and "map_of counts (str ''LOW'') = Some L"
    and "0 \<le> H" and "0 \<le> M" and "0 \<le> L"
  shows "\<exists>score. calculate_health_score counts = Inr score
           \<and> score = max 0 (100 - 15 * H - 7 * M - 3 * L) \<and> 0 \<le> score \<and> score \<le> 100"
  using assms by (simp add: calculate_health_score_def getitem_Some Let_def max_def)

theorem calculate_health_score_formula_witness:
  "calculate_health_score [(str ''HIGH'', 1), (str ''MEDIUM'', 2), (str ''LOW'', 3)] = Inr 62
   \<and> calculate_health_score [(str ''HIGH'', 7), (str ''MEDIUM'', 0), (str ''LOW'', 0)] = Inr 0"
  using calculate_health_score_formula
          [of "[(str ''HIGH'', 1), (str ''MEDIUM'', 2), (str ''LOW'', 3)]" 1 2 3]
        calculate_health_score_formula
          [of "[(str ''HIGH'', 7), (str ''MEDIUM'', 0), (str ''LOW'', 0)]" 7 0 0]
  by (simp add: str_def)

subsection \<open>Markers in the finding messages\<close>

lemma py_count_join:
  "sub \<noteq> [] \<Longrightarrow> c \<notin> set sub \<Longrightarrow>
   py_count (py_join [c] xs) sub = (\<Sum>x\<leftarrow>xs. py_count x sub)"
proof (induction "[c]" xs rule: py_join.induct)
  case 1
  then show ?case by (simp add: py_count_Nil)
next
  case (2 x)
  then show ?case by simp
next
  case (3 x y ys)
  then show ?case using py_count_sep[of sub c x "py_join [c] (y # ys)"] by simp
qed

lemmas msg_defs = msg_api_key_def msg_except_def msg_print_def msg_none_def

lemma msg_api_key_count:
  "py_count msg_api_key (str ''[HIGH]'') = 1"
  "py_count msg_api_key (str ''[MEDIUM]'') = 0"
  "py_count msg_api_key (str ''[LOW]'') = 0"
  unfolding count_tag_HIGH count_tag_MEDIUM count_tag_LOW
  by (simp_all add: msg_defs str_def occurrences_Cons occurrences_Nil)

lemma msg_except_count:
  "py_count msg_except (str ''[HIGH]'') = 0"
  "py_count msg_except (str ''[MEDIUM]'') = 1"
  "py_count msg_except (str ''[LOW]'') = 0"
  unfolding count_tag_HIGH count_tag_MEDIUM count_tag_LOW
  by (simp_all add: msg_defs str_def occurrences_Cons occurrences_Nil)

lemma msg_print_count:
  "py_count msg_print (str ''[HIGH]'') = 0"
  "py_count msg_print (str ''[MEDIUM]'') = 0"
  "py_count msg_print (str ''[LOW]'') = 1"
  unfolding count_tag_HIGH count_tag_MEDIUM count_tag_LOW
  by (simp_all add: msg_defs str_def occurrences_Cons occurrences_Nil)

lemma msg_none_count:
  "py_count msg_none (str ''[HIGH]'') = 0"
  "py_count msg_none (str ''[MEDIUM]'') = 0"
  "py_count msg_none (str ''[LOW]'') = 1"
  unfolding count_tag_HIGH count_tag_MEDIUM count_tag_LOW
  by (simp_all add: msg_defs str_def occurrences_Cons occurrences_Nil)

lemma msg_prefix:
  "prefix (str ''[HIGH]'') msg_api_key" "\<not> prefix (str ''[MEDIUM]'') msg_api_key"
  "\<not> prefix (str ''[LOW]'') msg_api_key"
  "\<not> prefix (str ''[HIGH]'') msg_except" "prefix (str ''[MEDIUM]'') msg_except"
  "\<not> prefix (str ''[LOW]'') msg_except"
  "\<not> prefix (str ''[HIGH]'') msg_print" "\<not> prefix (str ''[MEDIUM]'') msg_print"
  "prefix (str ''[LOW]'') msg_print"
  "\<not> prefix (str ''[HIGH]'') msg_none" "\<not> prefix (str ''[MEDIUM]'') msg_none"
  "prefix (str ''[LOW]'') msg_none"
  by (simp_all add: msg_defs str_def)

lemma msg_distinct:
  "msg_api_key \<noteq> msg_except" "msg_api_key \<noteq> msg_print" "msg_api_key \<noteq> msg_none"
  "msg_except \<noteq> msg_print" "msg_except \<noteq> msg_none" "msg_print \<noteq> msg_none"
  by (simp_all add: msg_defs str_def)

subsection \<open>The scanner\<close>

lemma findings_eq:
  "findings lower contents =
     (let fs = (if py_in (str ''api_key'') (lower contents) then [msg_api_key] else [])
             @ (if py_in (str ''except:'') contents then [msg_except] else [])
             @ (if py_in (str ''print('') contents then [msg_print] else [])
      in if fs = [] then [msg_none] else fs)"
  by (simp add: findings_def Let_def)

lemma analyze_file_count:
  assumes "sub \<noteq> []" and "58 \<notin> set sub" and "10 \<notin> set sub"
  shows "py_count (analyze_file lower file) sub =
           py_count (path file) sub + (\<Sum>m\<leftarrow>findings lower (content file). py_count m sub)"
proof -
  have "analyze_file lower file =
          path file @ 58 # ([] @ 10 # py_join [10] (findings lower (content file)))"
    by (simp add: analyze_file_def str_def)
  then have "py_count (analyze_file lower file) sub =
          py_count (path file) sub
          + (py_count [] sub + py_count (py_join [10] (findings lower (content file))) sub)"
    by (simp only: py_count_sep[OF assms(1,2)] py_count_sep[OF assms(1,3)])
  then show ?thesis
    by (simp add: py_count_Nil[OF assms(1)] py_count_join[OF assms(1,3)])
qed

lemma findings_count_HIGH:
  "(\<Sum>m\<leftarrow>findings lower contents. py_count m (str ''[HIGH]''))
     = length (filter (prefix (str ''[HIGH]'')) (findings lower contents))"
  by (simp add: findings_eq Let_def msg_api_key_count msg_except_count msg_print_count
      msg_none_count msg_prefix)

lemma findings_count_MEDIUM:
  "(\<Sum>m\<leftarrow>findings lower contents. py_count m (str ''[MEDIUM]''))
     = length (filter (prefix (str ''[MEDIUM]'')) (findings lower contents))"
  by (simp add: findings_eq Let_def msg_api_key_count msg_except_count msg_print_count
      msg_none_count msg_prefix)

lemma findings_count_LOW:
  "(\<Sum>m\<leftarrow>findings lower contents. py_count m (str ''[LOW]''))
     = length (filter (prefix (str ''[LOW]'')) (findings lower contents))"
  by (simp add: findings_eq Let_def msg_api_key_count msg_except_count msg_print_count
      msg_none_count msg_prefix)

lemma tag_chars:
  "str ''[HIGH]'' \<noteq> []" "58 \<notin> set (str ''[HIGH]'')" "10 \<notin> set (str ''[HIGH]'')"
  "str ''[MEDIUM]'' \<noteq> []" "58 \<notin> set (str ''[MEDIUM]'')" "10 \<notin> set (str ''[MEDIUM]'')"
  "str ''[LOW]'' \<noteq> []" "58 \<notin> set (str ''[LOW]'')" "10 \<notin> set (str ''[LOW]'')"
  by (simp_all add: str_def)

lemma analyze_file_count_HIGH:
  "py_count (analyze_file lower file) (str ''[HIGH]'') =
     py_count (path file) (str ''[HIGH]'')
     + length (filter (prefix (str ''[HIGH]'')) (findings lower (content file)))"
  by (simp add: analyze_file_count tag_chars findings_count_HIGH)

lemma analyze_file_count_MEDIUM:
  "py_count (analyze_file lower file) (str ''[MEDIUM]'') =
     py_count (path file) (str ''[MEDIUM]'')
     + length (filter (prefix (str ''[MEDIUM]'')) (findings lower (content file)))"
  by (simp add: analyze_file_count tag_chars findings_count_MEDIUM)

lemma analyze_file_count_LOW:
  "py_count (analyze_file lower file) (str ''[LOW]'') =
     py_count (path file) (str ''[LOW]'')
     + length (filter (prefix (str ''[LOW]'')) (findings lower (content file)))"
  by (simp add: analyze_file_count tag_chars findings_count_LOW)

lemma py_join_newline:
  "fs \<noteq> [] \<Longrightarrow> py_join [c] fs = hd fs @ concat (map (\<lambda>m. c # m) (tl fs))"
proof (induction "[c]" fs rule: py_join.induct)
  case 1
  then show ?case by simp
next
  case (2 x)
  then show ?case by simp
next
  case (3 x y ys)
  then show ?case by simp
qed

lemma findings_nonempty: "findings lower contents \<noteq> []"
  by (simp add: findings_eq Let_def)

lemma analyze_file_text:
  "analyze_file lower file =
     path file @ str '':\<newline>'' @ hd (findings lower (content file))
     @ concat (map (\<lambda>m. 10 # m) (tl (findings lower (content file))))"
proof -
  have "str ''\<newline>'' = [10]" by (simp add: str_def)
  then show ?thesis
    by (simp add: analyze_file_def py_join_newline[OF findings_nonempty])
qed

lemma ascii_lower_append: "ascii_lower (a @ b) = ascii_lower a @ ascii_lower b"
  by (simp add: ascii_lower_def)

lemma py_in_middle: "py_in v (pre @ v @ post)"
  by (simp add: py_in_iff_sublist sublist_appendI)

lemma py_in_ascii_lower: "py_in sub s \<Longrightarrow> py_in (ascii_lower sub) (ascii_lower s)"
proof -
  assume "py_in sub s"
  then obtain ps ss where "s = ps @ sub @ ss"
    by (auto simp: py_in_iff_sublist sublist_def)
  then have "ascii_lower s = ascii_lower ps @ ascii_lower sub @ ascii_lower ss"
    by (simp add: ascii_lower_append)
  then show ?thesis by (simp add: py_in_middle)
qed

lemma py_in_same_length: "py_in sub s \<Longrightarrow> length sub = length s \<Longrightarrow> sub = s"
  by (auto simp: py_in_iff_sublist sublist_def)

lemma ascii_lower_length: "length (ascii_lower s) = length s"
  by (simp add: ascii_lower_def)

lemma ascii_lower_triggers:
  "ascii_lower (str ''api_key'') = str ''api_key''"
  "ascii_lower (str ''except:'') = str ''except:''"
  "ascii_lower (str ''print('') = str ''print(''"
  by (simp_all add: ascii_lower_def str_def)

lemma triggers_apart:
  "\<not> py_in (str ''api_key'') (str ''except:'')" "\<not> py_in (str ''api_key'') (str ''print('')"
  "\<not> py_in (str ''except:'') (str ''api_key'')" "\<not> py_in (str ''except:'') (str ''print('')"
  "\<not> py_in (str ''print('') (str ''api_key'')" "\<not> py_in (str ''print('') (str ''except:'')"
  by (simp_all add: str_def)

text \<open>A case variant of a trigger, alone in a file, matches only what its lowercase form matches.\<close>

lemma variant_no_other:
  assumes "ascii_lower v = t" and "ascii_lower u = u" and "\<not> py_in u t"
  shows "\<not> py_in u v"
  using py_in_ascii_lower[of u v] assms by auto

lemma variant_not_itself:
  assumes "ascii_lower v = t" and "v \<noteq> t"
  shows "\<not> py_in t v"
proof
  assume "py_in t v"
  moreover have "length t = length v" using assms(1) ascii_lower_length[of v] by simp
  ultimately have "t = v" by (rule py_in_same_length)
  with assms(2) show False by simp
qed

lemma findings_hd_api_key:
  "py_in (str ''api_key'') (lower contents) \<Longrightarrow> hd (findings lower contents) = msg_api_key"
  by (simp add: findings_eq Let_def)

lemma findings_variant_api_key:
  assumes "ascii_lower k = str ''api_key''"
  shows "findings ascii_lower k = [msg_api_key]"
proof -
  have a: "py_in (str ''api_key'') (ascii_lower k)"
    using assms py_in_middle[of "str ''api_key''" "[]" "[]"] by simp
  have b: "\<not> py_in (str ''except:'') k"
    using variant_no_other[OF assms ascii_lower_triggers(2) triggers_apart(3)] .
  have c: "\<not> py_in (str ''print('') k"
    using variant_no_other[OF assms ascii_lower_triggers(3) triggers_apart(5)] .
  from a b c show ?thesis by (simp add: findings_eq)
qed

lemma findings_variant_except:
  assumes "ascii_lower e = str ''except:''" and "e \<noteq> str ''except:''"
  shows "findings ascii_lower e = [msg_none]"
proof -
  have a: "\<not> py_in (str ''api_key'') (ascii_lower e)"
    using assms(1) triggers_apart(1) by simp
  have b: "\<not> py_in (str ''except:'') e"
    using variant_not_itself[OF assms] .
  have c: "\<not> py_in (str ''print('') e"
    using variant_no_other[OF assms(1) ascii_lower_triggers(3) triggers_apart(6)] .
  from a b c show ?thesis by (simp add: findings_eq)
qed

lemma findings_variant_print:
  assumes "ascii_lower q = str ''print(''" and "q \<noteq> str ''print(''"
  shows "findings ascii_lower q = [msg_none]"
proof -
  have a: "\<not> py_in (str ''api_key'') (ascii_lower q)"
    using assms(1) triggers_apart(2) by simp
  have b: "\<not> py_in (str ''except:'') q"
    using variant_no_other[OF assms(1) ascii_lower_triggers(2) triggers_apart(4)] .
  have c: "\<not> py_in (str ''print('') q"
    using variant_not_itself[OF assms] .
  from a b c show ?thesis by (simp add: findings_eq)
qed

lemma findings_exact:
  "findings lower contents =
     (if py_in (str ''api_key'') (lower contents) \<or> py_in (str ''except:'') contents
         \<or> py_in (str ''print('') contents
      then (if py_in (str ''api_key'') (lower contents) then [msg_api_key] else [])
         @ (if py_in (str ''except:'') contents then [msg_except] else [])
         @ (if py_in (str ''print('') contents then [msg_print] else [])
      else [msg_none])"
  by (simp add: findings_eq Let_def)

lemma findings_members:
  "msg_api_key \<in> set (findings lower contents) \<longleftrightarrow> py_in (str ''api_key'') (lower contents)"
  "msg_except \<in> set (findings lower contents) \<longleftrightarrow> py_in (str ''except:'') contents"
  "msg_print \<in> set (findings lower contents) \<longleftrightarrow> py_in (str ''print('') contents"
  "msg_none \<in> set (findings lower contents) \<longleftrightarrow>
     \<not> py_in (str ''api_key'') (lower contents) \<and> \<not> py_in (str ''except:'') contents
     \<and> \<not> py_in (str ''print('') contents"
  using msg_distinct by (auto simp: findings_eq Let_def)

lemma findings_distinct: "distinct (findings lower contents)"
  using msg_distinct by (simp add: findings_eq Let_def)

lemma analyze_file_all_three:
  assumes "py_in (str ''api_key'') (lower (content file))"
    and "py_in (str ''except:'') (content file)"
    and "py_in (str ''print('') (content file)"
  shows "analyze_file lower file =
     path file @ str '':\<newline>'' @ msg_api_key @ [10] @ msg_except @ [10] @ msg_print"
  using assms by (simp add: analyze_file_text findings_eq)

lemma analyze_file_no_match:
  assumes "\<not> py_in (str ''api_key'') (lower (content file))"
    and "\<not> py_in (str ''except:'') (content file)"
    and "\<not> py_in (str ''print('') (content file)"
  shows "analyze_file lower file = path file @ str '':\<newline>'' @ msg_none"
  using assms by (simp add: analyze_file_text findings_eq)

text \<open>
  Claim C4: for every file the scanner's list of findings is never empty. It holds the
  HIGH finding exactly when the lowercased text contains \<open>api_key\<close>, the MEDIUM finding
  exactly when the text contains \<open>except:\<close> and the LOW finding exactly when it contains
  \<open>print(\<close>, each whatever the other tests say, once each and in this order; it is the
  placeholder LOW finding alone exactly when no test matches. The text returned is the
  path, a colon and a newline, then these findings, one per line.
\<close>

theorem scanner_rules:
  "findings lower (content sf) \<noteq> []
   \<and> findings lower (content sf) =
       (if py_in (str ''api_key'') (lower (content sf)) \<or> py_in (str ''except:'') (content sf)
           \<or> py_in (str ''print('') (content sf)
        then (if py_in (str ''api_key'') (lower (content sf)) then [msg_api_key] else [])
           @ (if py_in (str ''except:'') (content sf) then [msg_except] else [])
           @ (if py_in (str ''print('') (content sf) then [msg_print] else [])
        else [msg_none])
   \<and> (msg_api_key \<in> set (findings lower (content sf))
        \<longleftrightarrow> py_in (str ''api_key'') (lower (content sf)))
   \<and> (msg_except \<in> set (findings lower (content sf))
        \<longleftrightarrow> py_in (str ''except:'') (content sf))
   \<and> (msg_print \<in> set (findings lower (content sf))
        \<longleftrightarrow> py_in (str ''print('') (content sf))
   \<and> (msg_none \<in> set (findings lower (content sf))
        \<longleftrightarrow> \<not> py_in (str ''api_key'') (lower (content sf))
            \<and> \<not> py_in (str ''except:'') (content sf) \<and> \<not> py_in (str ''print('') (content sf))
   \<and> distinct (findings lower (content sf))
   \<and> prefix (str ''[HIGH]'') msg_api_key \<and> prefix (str ''[MEDIUM]'') msg_except
   \<and> prefix (str ''[LOW]'') msg_print \<and> prefix (str ''[LOW]'') msg_none
   \<and> analyze_file lower sf =
       path sf @ str '':\<newline>'' @ hd (findings lower (content sf))
       @ concat (map (\<lambda>m. 10 # m) (tl (findings lower (content sf))))
   \<and> (py_in (str ''api_key'') (lower (content sf)) \<and> py_in (str ''except:'') (content sf)
        \<and> py_in (str ''print('') (content sf)
        \<longrightarrow> analyze_file lower sf =
              path sf @ str '':\<newline>'' @ msg_api_key @ [10] @ msg_except @ [10] @ msg_print)
   \<and> (\<not> py_in (str ''api_key'') (lower (content sf)) \<and> \<not> py_in (str ''except:'') (content sf)
        \<and> \<not> py_in (str ''print('') (content sf)
        \<longrightarrow> analyze_file lower sf = path sf @ str '':\<newline>'' @ msg_none)"
  using findings_nonempty[of lower "content sf"] findings_exact[of lower "content sf"]
    findings_members[of lower "content sf"] findings_distinct[of lower "content sf"]
    msg_prefix analyze_file_text[of lower sf] analyze_file_all_three[of lower sf]
    analyze_file_no_match[of lower sf]
  by blast

theorem scanner_rules_witness:
  "py_in (str ''api_key'') (ascii_lower (str ''API_KEY = 1; except: print(1)''))
   \<and> py_in (str ''except:'') (str ''API_KEY = 1; except: print(1)'')
   \<and> py_in (str ''print('') (str ''API_KEY = 1; except: print(1)'')
   \<and> analyze_file ascii_lower
        \<lparr>path = str ''a.py'', content = str ''API_KEY = 1; except: print(1)''\<rparr>
       = str ''a.py:\<newline>'' @ msg_api_key @ [10] @ msg_except @ [10] @ msg_print
   \<and> \<not> py_in (str ''api_key'') (ascii_lower (str ''x = 1''))
   \<and> \<not> py_in (str ''except:'') (str ''x = 1'')
   \<and> \<not> py_in (str ''print('') (str ''x = 1'')
   \<and> analyze_file ascii_lower \<lparr>path = str ''a.py'', content = str ''x = 1''\<rparr>
       = str ''a.py:\<newline>'' @ msg_none"
proof -
  have a: "py_in (str ''api_key'') (ascii_lower (str ''API_KEY = 1; except: print(1)''))"
    "py_in (str ''except:'') (str ''API_KEY = 1; except: print(1)'')"
    "py_in (str ''print('') (str ''API_KEY = 1; except: print(1)'')"
    by (simp_all add: str_def ascii_lower_def)
  have n: "\<not> py_in (str ''api_key'') (ascii_lower (str ''x = 1''))"
    "\<not> py_in (str ''except:'') (str ''x = 1'')"
    "\<not> py_in (str ''print('') (str ''x = 1'')"
    by (simp_all add: str_def ascii_lower_def)
  have p: "str ''a.py:\<newline>'' = str ''a.py'' @ str '':\<newline>''"
    by (simp add: str_def)
  have r1: "analyze_file ascii_lower
        \<lparr>path = str ''a.py'', content = str ''API_KEY = 1; except: print(1)''\<rparr>
       = str ''a.py:\<newline>'' @ msg_api_key @ [10] @ msg_except @ [10] @ msg_print"
    using a scanner_rules
      [of ascii_lower "\<lparr>path = str ''a.py'', content = str ''API_KEY = 1; except: print(1)''\<rparr>"]
    by (simp add: p)
  have r2: "analyze_file ascii_lower \<lparr>path = str ''a.py'', content = str ''x = 1''\<rparr>
       = str ''a.py:\<newline>'' @ msg_none"
    using n scanner_rules
      [of ascii_lower "\<lparr>path = str ''a.py'', content = str ''x = 1''\<rparr>"]
    by (simp add: p)
  show ?thesis by (intro conjI a n r1 r2)
qed

text \<open>
  Claim C10: the HIGH test looks at the lowercased text, the MEDIUM and LOW tests at the
  text as it is. A file that holds \<open>api_key\<close> in any mix of capitals gets the HIGH
  finding first, wherever the word stands. A file that is \<open>except:\<close> or \<open>print(\<close>
  written with a capital anywhere matches nothing, and the scanner yields the placeholder
  LOW finding alone, as it does for every file on which no test matches; written in
  lowercase they give the MEDIUM and the LOW finding.
\<close>

theorem scanner_case_sensitivity:
  "(\<not> py_in (str ''api_key'') (lower (content sf)) \<and> \<not> py_in (str ''except:'') (content sf)
      \<and> \<not> py_in (str ''print('') (content sf)
      \<longrightarrow> findings lower (content sf) = [msg_none]
          \<and> analyze_file lower sf = path sf @ str '':\<newline>'' @ msg_none)
   \<and> (ascii_lower k = str ''api_key''
      \<longrightarrow> hd (findings ascii_lower (pre @ k @ post)) = msg_api_key
          \<and> prefix (p @ str '':\<newline>'' @ msg_api_key)
                (analyze_file ascii_lower \<lparr>path = p, content = pre @ k @ post\<rparr>)
          \<and> analyze_file ascii_lower \<lparr>path = p, content = k\<rparr>
              = p @ str '':\<newline>'' @ msg_api_key)
   \<and> (ascii_lower e = str ''except:'' \<and> e \<noteq> str ''except:''
      \<longrightarrow> findings ascii_lower e = [msg_none]
          \<and> analyze_file ascii_lower \<lparr>path = p, content = e\<rparr> = p @ str '':\<newline>'' @ msg_none)
   \<and> (ascii_lower q = str ''print('' \<and> q \<noteq> str ''print(''
      \<longrightarrow> findings ascii_lower q = [msg_none]
          \<and> analyze_file ascii_lower \<lparr>path = p, content = q\<rparr> = p @ str '':\<newline>'' @ msg_none)
   \<and> analyze_file ascii_lower \<lparr>path = p, content = str ''except:''\<rparr>
       = p @ str '':\<newline>'' @ msg_except
   \<and> analyze_file ascii_lower \<lparr>path = p, content = str ''print(''\<rparr>
       = p @ str '':\<newline>'' @ msg_print
   \<and> (msg_api_key \<in> set (findings lower (content sf))
        \<longleftrightarrow> py_in (str ''api_key'') (lower (content sf)))
   \<and> (msg_except \<in> set (findings lower (content sf))
        \<longleftrightarrow> py_in (str ''except:'') (content sf))
   \<and> (msg_print \<in> set (findings lower (content sf))
        \<longleftrightarrow> py_in (str ''print('') (content sf))"
proof -
  have none: "\<not> py_in (str ''api_key'') (lower (content sf))
      \<and> \<not> py_in (str ''except:'') (content sf) \<and> \<not> py_in (str ''print('') (content sf)
      \<longrightarrow> findings lower (content sf) = [msg_none]
          \<and> analyze_file lower sf = path sf @ str '':\<newline>'' @ msg_none"
    by (simp add: findings_eq analyze_file_no_match)
  have high: "ascii_lower k = str ''api_key''
      \<longrightarrow> hd (findings ascii_lower (pre @ k @ post)) = msg_api_key
          \<and> prefix (p @ str '':\<newline>'' @ msg_api_key)
                (analyze_file ascii_lower \<lparr>path = p, content = pre @ k @ post\<rparr>)
          \<and> analyze_file ascii_lower \<lparr>path = p, content = k\<rparr>
              = p @ str '':\<newline>'' @ msg_api_key"
  proof
    assume k: "ascii_lower k = str ''api_key''"
    then have "py_in (str ''api_key'') (ascii_lower (pre @ k @ post))"
      using py_in_middle[of "str ''api_key''" "ascii_lower pre" "ascii_lower post"]
      by (simp add: ascii_lower_append)
    then have h: "hd (findings ascii_lower (pre @ k @ post)) = msg_api_key"
      by (rule findings_hd_api_key)
    have "prefix (p @ str '':\<newline>'' @ msg_api_key)
        (analyze_file ascii_lower \<lparr>path = p, content = pre @ k @ post\<rparr>)"
      by (simp add: analyze_file_text h)
    moreover have "analyze_file ascii_lower \<lparr>path = p, content = k\<rparr>
        = p @ str '':\<newline>'' @ msg_api_key"
      by (simp add: analyze_file_text findings_variant_api_key[OF k])
    ultimately show "hd (findings ascii_lower (pre @ k @ post)) = msg_api_key
          \<and> prefix (p @ str '':\<newline>'' @ msg_api_key)
                (analyze_file ascii_lower \<lparr>path = p, content = pre @ k @ post\<rparr>)
          \<and> analyze_file ascii_lower \<lparr>path = p, content = k\<rparr>
              = p @ str '':\<newline>'' @ msg_api_key"
      using h by simp
  qed
  have medium: "ascii_lower e = str ''except:'' \<and> e \<noteq> str ''except:''
      \<longrightarrow> findings ascii_lower e = [msg_none]
          \<and> analyze_file ascii_lower \<lparr>path = p, content = e\<rparr> = p @ str '':\<newline>'' @ msg_none"
    by (simp add: analyze_file_text findings_variant_except)
  have low: "ascii_lower q = str ''print('' \<and> q \<noteq> str ''print(''
      \<longrightarrow> findings ascii_lower q = [msg_none]
          \<and> analyze_file ascii_lower \<lparr>path = p, content = q\<rparr> = p @ str '':\<newline>'' @ msg_none"
    by (simp add: analyze_file_text findings_variant_print)
  have exact: "analyze_file ascii_lower \<lparr>path = p, content = str ''except:''\<rparr>
       = p @ str '':\<newline>'' @ msg_except"
    "analyze_file ascii_lower \<lparr>path = p, content = str ''print(''\<rparr>
       = p @ str '':\<newline>'' @ msg_print"
    by (simp_all add: analyze_file_text findings_eq ascii_lower_def str_def)
  from none high medium low exact findings_members(1-3)[of lower "content sf"]
  show ?thesis by blast
qed

theorem scanner_case_sensitivity_witness:
  "\<not> py_in (str ''api_key'') (ascii_lower (str ''Except: PRINT(1)''))
   \<and> \<not> py_in (str ''except:'') (str ''Except: PRINT(1)'')
   \<and> \<not> py_in (str ''print('') (str ''Except: PRINT(1)'')
   \<and> analyze_file ascii_lower \<lparr>path = str ''a.py'', content = str ''Except: PRINT(1)''\<rparr>
       = str ''a.py:\<newline>'' @ msg_none
   \<and> ascii_lower (str ''Api_KEY'') = str ''api_key''
   \<and> prefix (str ''a.py:\<newline>'' @ msg_api_key)
        (analyze_file ascii_lower \<lparr>path = str ''a.py'', content = str ''x.Api_KEY = 1''\<rparr>)
   \<and> ascii_lower (str ''Except:'') = str ''except:'' \<and> str ''Except:'' \<noteq> str ''except:''
   \<and> analyze_file ascii_lower \<lparr>path = str ''a.py'', content = str ''Except:''\<rparr>
       = str ''a.py:\<newline>'' @ msg_none
   \<and> ascii_lower (str ''PRINT('') = str ''print('' \<and> str ''PRINT('' \<noteq> str ''print(''
   \<and> analyze_file ascii_lower \<lparr>path = str ''a.py'', content = str ''PRINT(''\<rparr>
       = str ''a.py:\<newline>'' @ msg_none"
proof -
  have n: "\<not> py_in (str ''api_key'') (ascii_lower (str ''Except: PRINT(1)''))"
    "\<not> py_in (str ''except:'') (str ''Except: PRINT(1)'')"
    "\<not> py_in (str ''print('') (str ''Except: PRINT(1)'')"
    by (simp_all add: str_def ascii_lower_def)
  have k: "ascii_lower (str ''Api_KEY'') = str ''api_key''"
    by (simp add: str_def ascii_lower_def)
  have e: "ascii_lower (str ''Except:'') = str ''except:''" "str ''Except:'' \<noteq> str ''except:''"
    by (simp_all add: str_def ascii_lower_def)
  have q: "ascii_lower (str ''PRINT('') = str ''print(''" "str ''PRINT('' \<noteq> str ''print(''"
    by (simp_all add: str_def ascii_lower_def)
  have p: "str ''a.py:\<newline>'' = str ''a.py'' @ str '':\<newline>''"
    "str ''x.Api_KEY = 1'' = str ''x.'' @ str ''Api_KEY'' @ str '' = 1''"
    by (simp_all add: str_def)
  note t = scanner_case_sensitivity
      [where lower = ascii_lower
         and sf = "\<lparr>path = str ''a.py'', content = str ''Except: PRINT(1)''\<rparr>"
         and k = "str ''Api_KEY''" and pre = "str ''x.''" and post = "str '' = 1''"
         and p = "str ''a.py''" and e = "str ''Except:''" and q = "str ''PRINT(''"]
  have r1: "analyze_file ascii_lower \<lparr>path = str ''a.py'', content = str ''Except: PRINT(1)''\<rparr>
       = str ''a.py:\<newline>'' @ msg_none"
    using t n by (simp add: p(1))
  have r2: "prefix (str ''a.py:\<newline>'' @ msg_api_key)
        (analyze_file ascii_lower \<lparr>path = str ''a.py'', content = str ''x.Api_KEY = 1''\<rparr>)"
    using t k by (simp add: p)
  have r3: "analyze_file ascii_lower \<lparr>path = str ''a.py'', content = str ''Except:''\<rparr>
       = str ''a.py:\<newline>'' @ msg_none"
    using t e by (simp add: p)
  have r4: "analyze_file ascii_lower \<lparr>path = str ''a.py'', content = str ''PRINT(''\<rparr>
       = str ''a.py:\<newline>'' @ msg_none"
    using t q by (simp add: p)
  show ?thesis by (intro conjI n r1 k r2 e r3 q r4)
qed

text \<open>
  Claim C3: one sampled file whose lowercased content contains \<open>api_key\<close>, whose content
  contains neither \<open>except:\<close> nor \<open>print(\<close>, and whose path contains none of the three
  markers: scanner, aggregator and scorer give the counts HIGH 1, MEDIUM 0, LOW 0 and
  the score 85.
\<close>

theorem api_key_file_scores_85:
  assumes "py_in (str ''api_key'') (lower (content file))"
    and "\<not> py_in (str ''except:'') (content file)"
    and "\<not> py_in (str ''print('') (content file)"
    and "\<not> py_in (str ''[HIGH]'') (path file)"
    and "\<not> py_in (str ''[MEDIUM]'') (path file)"
    and "\<not> py_in (str ''[LOW]'') (path file)"
  shows "extract_severity_counts [analyze_file lower file]
           = [(str ''HIGH'', 1), (str ''MEDIUM'', 0), (str ''LOW'', 0)]
         \<and> calculate_health_score (extract_severity_counts [analyze_file lower file]) = Inr 85"
proof -
  have fs: "findings lower (content file) = [msg_api_key]"
    using assms(1-3) by (simp add: findings_eq)
  have p: "py_count (path file) (str ''[HIGH]'') = 0"
      "py_count (path file) (str ''[MEDIUM]'') = 0"
      "py_count (path file) (str ''[LOW]'') = 0"
    using assms(4-6) by (simp_all add: py_count_zero_iff tag_chars)
  have c: "extract_severity_counts [analyze_file lower file]
           = [(str ''HIGH'', 1), (str ''MEDIUM'', 0), (str ''LOW'', 0)]"
    by (simp add: extract_severity_counts_eq analyze_file_count_HIGH analyze_file_count_MEDIUM
        analyze_file_count_LOW fs p msg_prefix)
  have "calculate_health_score [(str ''HIGH'', 1), (str ''MEDIUM'', 0), (str ''LOW'', 0)] = Inr 85"
    by (simp add: calculate_health_score_def getitem_def str_def)
  with c show ?thesis by simp
qed

theorem api_key_file_scores_85_witness:
  "py_in (str ''api_key'') (ascii_lower (str ''api_key = '' @ [34, 120, 34]))
   \<and> \<not> py_in (str ''except:'') (str ''api_key = '' @ [34, 120, 34])
   \<and> \<not> py_in (str ''print('') (str ''api_key = '' @ [34, 120, 34])
   \<and> \<not> py_in (str ''[HIGH]'') (str ''app.py'')
   \<and> \<not> py_in (str ''[MEDIUM]'') (str ''app.py'')
   \<and> \<not> py_in (str ''[LOW]'') (str ''app.py'')
   \<and> extract_severity_counts
        [analyze_file ascii_lower \<lparr>path = str ''app.py'', content = str ''api_key = '' @ [34, 120, 34]\<rparr>]
       = [(str ''HIGH'', 1), (str ''MEDIUM'', 0), (str ''LOW'', 0)]
   \<and> calculate_health_score (extract_severity_counts
        [analyze_file ascii_lower \<lparr>path = str ''app.py'', content = str ''api_key = '' @ [34, 120, 34]\<rparr>])
       = Inr 85"
proof -
  have h: "py_in (str ''api_key'') (ascii_lower (str ''api_key = '' @ [34, 120, 34]))"
      "\<not> py_in (str ''except:'') (str ''api_key = '' @ [34, 120, 34])"
      "\<not> py_in (str ''print('') (str ''api_key = '' @ [34, 120, 34])"
      "\<not> py_in (str ''[HIGH]'') (str ''app.py'')"
      "\<not> py_in (str ''[MEDIUM]'') (str ''app.py'')"
      "\<not> py_in (str ''[LOW]'') (str ''app.py'')"
    by (simp_all add: str_def ascii_lower_def)
  show ?thesis
    using h api_key_file_scores_85
      [of ascii_lower "\<lparr>path = str ''app.py'', content = str ''api_key = '' @ [34, 120, 34]\<rparr>"]
    by auto
qed

text \<open>
  Claim C9: the text returned for a file starts with its path, so a marker inside the
  path is counted too: for a file whose path contains the marker of a level, the count
  of that level over the file's text is the number of occurrences in the path plus the
  number of findings of that level, hence more than the findings emitted.
\<close>

theorem path_markers_are_counted:
  assumes "level \<in> {str ''HIGH'', str ''MEDIUM'', str ''LOW''}"
    and "py_in (str ''['' @ level @ str '']'') (path file)"
  shows "\<exists>n. map_of (extract_severity_counts [analyze_file lower file]) level = Some n
           \<and> n = int (py_count (path file) (str ''['' @ level @ str '']''))
                 + int (length (filter (prefix (str ''['' @ level @ str '']''))
                          (findings lower (content file))))
           \<and> int (length (filter (prefix (str ''['' @ level @ str '']''))
                          (findings lower (content file)))) < n"
proof -
  have ne: "str ''HIGH'' \<noteq> str ''MEDIUM''" "str ''HIGH'' \<noteq> str ''LOW''"
      "str ''MEDIUM'' \<noteq> str ''LOW''"
    by (simp_all add: str_def)
  have pos: "0 < py_count (path file) (str ''['' @ level @ str '']'')"
    using assms py_count_zero_iff[of "str ''['' @ level @ str '']''" "path file"]
    by (auto simp: str_def)
  from assms(1) consider "level = str ''HIGH''" | "level = str ''MEDIUM''" | "level = str ''LOW''"
    by auto
  then show ?thesis
  proof cases
    case 1
    then show ?thesis using pos
      by (simp add: tag_HIGH extract_severity_counts_eq analyze_file_count_HIGH)
  next
    case 2
    then show ?thesis using pos ne
      by (simp add: tag_MEDIUM extract_severity_counts_eq analyze_file_count_MEDIUM)
  next
    case 3
    then show ?thesis using pos ne
      by (simp add: tag_LOW extract_severity_counts_eq analyze_file_count_LOW)
  qed
qed

theorem path_markers_are_counted_witness:
  "str ''HIGH'' \<in> {str ''HIGH'', str ''MEDIUM'', str ''LOW''}
   \<and> py_in (str ''['' @ str ''HIGH'' @ str '']'') (str ''[HIGH].py'')
   \<and> findings ascii_lower (str ''x = 1'') = [msg_none]
   \<and> map_of (extract_severity_counts
        [analyze_file ascii_lower \<lparr>path = str ''[HIGH].py'', content = str ''x = 1''\<rparr>])
        (str ''HIGH'') = Some 1"
proof -
  have h: "str ''HIGH'' \<in> {str ''HIGH'', str ''MEDIUM'', str ''LOW''}"
    "py_in (str ''['' @ str ''HIGH'' @ str '']'') (str ''[HIGH].py'')"
    by (simp_all add: str_def)
  have f: "findings ascii_lower (str ''x = 1'') = [msg_none]"
    by (simp add: findings_eq str_def ascii_lower_def)
  have c: "py_count (str ''[HIGH].py'') (str ''['' @ str ''HIGH'' @ str '']'') = 1"
    unfolding tag_HIGH count_tag_HIGH
    by (simp add: str_def occurrences_Cons occurrences_Nil)
  show ?thesis
    using h f c path_markers_are_counted
      [of "str ''HIGH''" "\<lparr>path = str ''[HIGH].py'', content = str ''x = 1''\<rparr>" ascii_lower]
    by (simp add: msg_prefix tag_HIGH)
qed

subsection \<open>The file loader\<close>

lemma read_files_Nil: "read_files root [] = []"
  by (simp add: read_files_def)

lemma read_files_Cons:
  "read_files root ((name, opened) # files) =
     (if splitext_ext name \<in> ALLOWED_EXT then
        (case opened of
           None \<Rightarrow> []
         | Some contents \<Rightarrow>
             if 300 < length contents \<and> length contents < MAX_FILE_CHARS
             then [\<lparr>path = relpath root name, content = take MAX_FILE_CHARS contents\<rparr>]
             else [])
      else []) @ read_files root files"
  by (simp add: read_files_def)

lemma read_files_member:
  assumes "sf \<in> set (read_files root files)"
  shows "\<exists>name contents. (name, Some contents) \<in> set files
           \<and> sf = \<lparr>path = relpath root name, content = contents\<rparr>
           \<and> splitext_ext name \<in> ALLOWED_EXT
           \<and> 300 < length contents \<and> length contents < MAX_FILE_CHARS"
  using assms
proof (induction files)
  case Nil
  then show ?case by (simp add: read_files_Nil)
next
  case (Cons e files)
  obtain name opened where e: "e = (name, opened)" by (cases e)
  show ?case
  proof (cases "sf \<in> set (read_files root files)")
    case True
    from Cons.IH[OF True] show ?thesis by auto
  next
    case False
    have x: "splitext_ext name \<in> ALLOWED_EXT"
    proof (rule ccontr)
      assume "splitext_ext name \<notin> ALLOWED_EXT"
      with Cons.prems False e show False by (simp add: read_files_Cons)
    qed
    obtain contents where o: "opened = Some contents"
    proof (cases opened)
      case None
      with Cons.prems False e x show ?thesis by (simp add: read_files_Cons)
    next
      case (Some c)
      then show ?thesis using that by simp
    qed
    have l: "300 < length contents \<and> length contents < MAX_FILE_CHARS"
    proof (rule ccontr)
      assume "\<not> (300 < length contents \<and> length contents < MAX_FILE_CHARS)"
      with Cons.prems False e x o show False by (simp add: read_files_Cons)
    qed
    with Cons.prems False e x o
    have "sf = \<lparr>path = relpath root name, content = contents\<rparr>"
      by (simp add: read_files_Cons)
    with e o x l show ?thesis by auto
  qed
qed

lemma os_walk_root:
  "(r, fs) \<in> set (os_walk root t) \<Longrightarrow> \<exists>ds. r = root @ ds \<and> set ds \<inter> IGNORED_DIRS = {}"
proof (induction root t arbitrary: r fs rule: os_walk.induct)
  case (1 root files dirs)
  from "1.prems" consider "r = root"
    | d t where "(d, t) \<in> set dirs" "d \<notin> IGNORED_DIRS" "(r, fs) \<in> set (os_walk (root @ [d]) t)"
    by auto
  then show ?case
  proof cases
    case 1
    then show ?thesis by simp
  next
    case 2
    then obtain ds where "r = (root @ [d]) @ ds" "set ds \<inter> IGNORED_DIRS = {}"
      using "1.IH"[of "(d, t)" d t r fs] by auto
    with 2(2) have "r = root @ (d # ds) \<and> set (d # ds) \<inter> IGNORED_DIRS = {}" by simp
    then show ?thesis by blast
  qed
qed

lemma os_walk_files:
  "(r, fs) \<in> set (os_walk root t) \<Longrightarrow> (f, x) \<in> set fs \<Longrightarrow> (r, f, x) \<in> set (tree_files root t)"
proof (induction root t arbitrary: r fs rule: os_walk.induct)
  case (1 root files dirs)
  from "1.prems"(1) consider "r = root" "fs = files"
    | d t where "(d, t) \<in> set dirs" "d \<notin> IGNORED_DIRS" "(r, fs) \<in> set (os_walk (root @ [d]) t)"
    by auto
  then show ?case
  proof cases
    case 1
    with "1.prems"(2) show ?thesis by force
  next
    case 2
    then have "(r, f, x) \<in> set (tree_files (root @ [d]) t)"
      using "1.IH"[of "(d, t)" d t r fs] "1.prems"(2) by auto
    with 2(1) show ?thesis by force
  qed
qed

lemma collect_subset:
  "set (collect acc es) \<subseteq> set acc \<union> (\<Union>(r, fs) \<in> set es. set (read_files r fs))"
  by (induction acc es rule: collect.induct) (auto simp: Let_def)

lemma load_files_member:
  assumes "sf \<in> set (load_files t)"
  shows "\<exists>ds name contents. (ds, name, Some contents) \<in> set (tree_files [] t)
           \<and> set ds \<inter> IGNORED_DIRS = {}
           \<and> sf = \<lparr>path = relpath ds name, content = contents\<rparr>
           \<and> splitext_ext name \<in> ALLOWED_EXT
           \<and> 300 < length contents \<and> length contents < MAX_FILE_CHARS"
proof -
  from assms have "sf \<in> set (collect [] (os_walk [] t))"
    by (auto simp: load_files_def dest: in_set_takeD)
  then obtain r fs where e: "(r, fs) \<in> set (os_walk [] t)" and m: "sf \<in> set (read_files r fs)"
    using collect_subset[of "[]" "os_walk [] t"] by auto
  from read_files_member[OF m] obtain name contents where
    f: "(name, Some contents) \<in> set fs" "sf = \<lparr>path = relpath r name, content = contents\<rparr>"
       "splitext_ext name \<in> ALLOWED_EXT" "300 < length contents" "length contents < MAX_FILE_CHARS"
    by blast
  from os_walk_root[OF e] have "set r \<inter> IGNORED_DIRS = {}" by auto
  moreover from os_walk_files[OF e f(1)] have "(r, name, Some contents) \<in> set (tree_files [] t)" .
  ultimately show ?thesis using f by blast
qed

lemma example_tree_sample:
  "load_files example_tree
   = [\<lparr>path = str ''a.py'', content = replicate 301 120\<rparr>,
      \<lparr>path = str ''src/main.ts'', content = replicate 7999 120\<rparr>]"
  by (simp add: example_tree_def load_files_def read_files_Cons read_files_Nil splitext_ext_def
      ALLOWED_EXT_def IGNORED_DIRS_def relpath_def MAX_FILES_def MAX_FILE_CHARS_def str_def)

text \<open>
  Claim C5: the sampler returns at most 10 files; every file returned is a file of the
  tree that could be read, has an extension of the allow-list and more than 300
  characters, and none of the directories on its path has an ignored name.
\<close>

theorem load_files_sample:
  "length (load_files t) \<le> 10
   \<and> (\<forall>sf \<in> set (load_files t). \<exists>ds name contents.
         (ds, name, Some contents) \<in> set (tree_files [] t)
         \<and> path sf = relpath ds name \<and> content sf = contents
         \<and> splitext_ext name \<in> ALLOWED_EXT
         \<and> 300 < length (content sf)
         \<and> set ds \<inter> IGNORED_DIRS = {})"
proof
  show "length (load_files t) \<le> 10"
    by (simp add: load_files_def MAX_FILES_def)
next
  show "\<forall>sf \<in> set (load_files t). \<exists>ds name contents.
         (ds, name, Some contents) \<in> set (tree_files [] t)
         \<and> path sf = relpath ds name \<and> content sf = contents
         \<and> splitext_ext name \<in> ALLOWED_EXT
         \<and> 300 < length (content sf)
         \<and> set ds \<inter> IGNORED_DIRS = {}"
  proof
    fix sf assume "sf \<in> set (load_files t)"
    from load_files_member[OF this] obtain ds name contents where
      "(ds, name, Some contents) \<in> set (tree_files [] t)" "set ds \<inter> IGNORED_DIRS = {}"
      "sf = \<lparr>path = relpath ds name, content = contents\<rparr>"
      "splitext_ext name \<in> ALLOWED_EXT" "300 < length contents"
      by blast
    then have "(ds, name, Some contents) \<in> set (tree_files [] t)
         \<and> path sf = relpath ds name \<and> content sf = contents
         \<and> splitext_ext name \<in> ALLOWED_EXT
         \<and> 300 < length (content sf)
         \<and> set ds \<inter> IGNORED_DIRS = {}"
      by simp
    then show "\<exists>ds name contents.
         (ds, name, Some contents) \<in> set (tree_files [] t)
         \<and> path sf = relpath ds name \<and> content sf = contents
         \<and> splitext_ext name \<in> ALLOWED_EXT
         \<and> 300 < length (content sf)
         \<and> set ds \<inter> IGNORED_DIRS = {}"
      by blast
  qed
qed

theorem load_files_sample_witness:
  "\<lparr>path = str ''src/main.ts'', content = replicate 7999 120\<rparr> \<in> set (load_files example_tree)
   \<and> length (load_files example_tree) = 2
   \<and> (\<exists>ds name contents.
         (ds, name, Some contents) \<in> set (tree_files [] example_tree)
         \<and> str ''src/main.ts'' = relpath ds name \<and> replicate 7999 120 = contents
         \<and> splitext_ext name \<in> ALLOWED_EXT
         \<and> (300::nat) < 7999
         \<and> set ds \<inter> IGNORED_DIRS = {})"
  using load_files_sample[of example_tree]
  by (simp add: example_tree_sample)

text \<open>
  Claim C6: the content stored for a file returned by the sampler is the text read from
  that file; cutting it to 8000 characters leaves it as it is, and it has fewer than
  8000 characters.
\<close>

theorem load_files_content_whole:
  "\<forall>sf \<in> set (load_files t). \<exists>ds name contents.
      (ds, name, Some contents) \<in> set (tree_files [] t)
      \<and> path sf = relpath ds name
      \<and> content sf = contents
      \<and> take MAX_FILE_CHARS contents = contents
      \<and> length (content sf) < 8000"
proof
  fix sf assume "sf \<in> set (load_files t)"
  from load_files_member[OF this] obtain ds name contents where
    "(ds, name, Some contents) \<in> set (tree_files [] t)"
    "sf = \<lparr>path = relpath ds name, content = contents\<rparr>"
    "length contents < MAX_FILE_CHARS"
    by blast
  then have "(ds, name, Some contents) \<in> set (tree_files [] t)
      \<and> path sf = relpath ds name
      \<and> content sf = contents
      \<and> take MAX_FILE_CHARS contents = contents
      \<and> length (content sf) < 8000"
    by (simp add: MAX_FILE_CHARS_def)
  then show "\<exists>ds name contents.
      (ds, name, Some contents) \<in> set (tree_files [] t)
      \<and> path sf = relpath ds name
      \<and> content sf = contents
      \<and> take MAX_FILE_CHARS contents = contents
      \<and> length (content sf) < 8000"
    by blast
qed

theorem load_files_content_whole_witness:
  "\<lparr>path = str ''a.py'', content = replicate 301 120\<rparr> \<in> set (load_files example_tree)
   \<and> (\<exists>ds name contents.
         (ds, name, Some contents) \<in> set (tree_files [] example_tree)
         \<and> str ''a.py'' = relpath ds name
         \<and> replicate 301 120 = contents
         \<and> take MAX_FILE_CHARS contents = contents)"
  using load_files_content_whole[of example_tree]
  by (simp add: example_tree_sample)

subsection \<open>The request handler\<close>








text \<open>
  Claim C8: when the clone succeeds and the sampler returns no file, the handler answers
  400 with the body \<open>{"error": "No readable source files found"}\<close>; the clone is the
  only call it has made, so the completion service was not called.
\<close>

theorem analyze_no_files:
  assumes "url \<noteq> []"
    and "clone_from w (auth_url_of (github_token w) url) = Inr local_path"
    and "load_files local_path = []"
  shows "analyze w (Some url) =
           (Response 400 (JObj [(str ''error'', JStr (str ''No readable source files found''))]),
            [Clone_from (auth_url_of (github_token w) url)])
         \<and> (\<forall>prompt. Create_completion prompt \<notin> set (snd (analyze w (Some url))))"
  using assms by (simp add: analyze_def)

theorem analyze_no_files_witness:
  "str ''https://github.com/u/r'' \<noteq> []
   \<and> clone_from (example_world\<lparr>clone_from := \<lambda>url. Inr (Dir [(str ''README.md'', Some [])] [])\<rparr>)
       (auth_url_of None (str ''https://github.com/u/r''))
       = Inr (Dir [(str ''README.md'', Some [])] [])
   \<and> load_files (Dir [(str ''README.md'', Some [])] []) = []
   \<and> analyze (example_world\<lparr>clone_from := \<lambda>url. Inr (Dir [(str ''README.md'', Some [])] [])\<rparr>)
        (Some (str ''https://github.com/u/r''))
       = (Response 400 (JObj [(str ''error'', JStr (str ''No readable source files found''))]),
          [Clone_from (str ''https://github.com/u/r'')])"
proof -
  have l: "load_files (Dir [(str ''README.md'', Some [])] []) = []"
    by (simp add: load_files_def read_files_Cons read_files_Nil splitext_ext_def ALLOWED_EXT_def
        str_def)
  have t: "github_token
      (example_world\<lparr>clone_from := \<lambda>url. Inr (Dir [(str ''README.md'', Some [])] [])\<rparr>) = None"
    by (simp add: example_world_def)
  have u: "str ''https://github.com/u/r'' \<noteq> []"
    by (simp add: str_def)
  show ?thesis
    using analyze_no_files
      [of "str ''https://github.com/u/r''"
          "example_world\<lparr>clone_from := \<lambda>url. Inr (Dir [(str ''README.md'', Some [])] [])\<rparr>"
          "Dir [(str ''README.md'', Some [])] []"] l u
    by (simp add: t auth_url_of_def)
qed






lemma example_files_nonempty: "load_files example_tree \<noteq> []"
  by (simp add: example_tree_sample)





end
